theory Spec2Isabelle
  imports Main
begin

section \<open>The rule prefer-promise-reject-errors, embedded\<close>

text \<open>
  The rule reads a JavaScript syntax tree whose nodes are objects: they are compared by
  identity (\<^verbatim>\<open>ref.identifier === ref.identifier.parent.callee\<close>) and carry a
  \<^verbatim>\<open>parent\<close> pointer. The tree is therefore a store: a node is named by its address
  (\<open>node_id\<close>), a child is the address of a node, \<open>node_at\<close> reads the object at an
  address and \<open>parent\<close> its parent pointer (\<open>None\<close> where the property is not set).
  Two addresses are the same object exactly when they are equal.

  Only the node kinds the rule tells apart are listed, with the fields it reads; the
  remaining kinds carry no field the rule looks at.
\<close>

type_synonym node_id = nat

datatype node =
    Identifier string
  | Literal
  | MemberExpression node_id node_id bool
  | CallExpression node_id "node_id list"
  | NewExpression node_id "node_id list"
  | FunctionExpression "node_id list"
  | ArrowFunctionExpression "node_id list"
  | ObjectPattern
  | ArrayPattern
  | AssignmentPattern
  | RestElement
  | AssignmentExpression
  | BlockStatement
  | ExpressionStatement
  | Program

text \<open>\<^verbatim>\<open>node.type\<close>\<close>

fun node_type :: "node \<Rightarrow> string" where
  "node_type (Identifier _) = ''Identifier''"
| "node_type Literal = ''Literal''"
| "node_type (MemberExpression _ _ _) = ''MemberExpression''"
| "node_type (CallExpression _ _) = ''CallExpression''"
| "node_type (NewExpression _ _) = ''NewExpression''"
| "node_type (FunctionExpression _) = ''FunctionExpression''"
| "node_type (ArrowFunctionExpression _) = ''ArrowFunctionExpression''"
| "node_type ObjectPattern = ''ObjectPattern''"
| "node_type ArrayPattern = ''ArrayPattern''"
| "node_type AssignmentPattern = ''AssignmentPattern''"
| "node_type RestElement = ''RestElement''"
| "node_type AssignmentExpression = ''AssignmentExpression''"
| "node_type BlockStatement = ''BlockStatement''"
| "node_type ExpressionStatement = ''ExpressionStatement''"
| "node_type Program = ''Program''"

text \<open>
  Property reads. A property a node kind does not have reads as \<^verbatim>\<open>undefined\<close>,
  which is \<open>None\<close> here.
\<close>

fun name :: "node \<Rightarrow> string option" where
  "name (Identifier s) = Some s"
| "name _ = None"

fun callee :: "node \<Rightarrow> node_id option" where
  "callee (CallExpression c _) = Some c"
| "callee (NewExpression c _) = Some c"
| "callee _ = None"

fun arguments :: "node \<Rightarrow> node_id list option" where
  "arguments (CallExpression _ as) = Some as"
| "arguments (NewExpression _ as) = Some as"
| "arguments _ = None"

fun params :: "node \<Rightarrow> node_id list option" where
  "params (FunctionExpression ps) = Some ps"
| "params (ArrowFunctionExpression ps) = Some ps"
| "params _ = None"

text \<open>
  What the scope manager hands out: a variable has a name, the identifier nodes that
  declare it (\<^verbatim>\<open>variable.identifiers\<close>) and the ordered list of its references; a
  reference knows whether it reads the variable and which identifier node it is
  (\<^verbatim>\<open>ref.identifier\<close>, here \<open>ref_identifier\<close>). The rule reads the name and the
  references only. The declaring identifiers tell the variable of a parameter from the
  variable of a function expression's own name, which
  \<^verbatim>\<open>FunctionExpressionNameScope\<close> defines from \<^verbatim>\<open>block.id\<close> with the function
  as the defining node.
\<close>

record reference =
  isRead :: bool
  ref_identifier :: node_id

record variable =
  vname :: string
  identifiers :: "node_id list"
  references :: "reference list"

text \<open>
  Everything the closure of \<^verbatim>\<open>create(context)\<close> can see: the option
  \<^verbatim>\<open>allowEmptyReject\<close>, \<^verbatim>\<open>astUtils.couldBeError\<close> (used as a black box),
  \<^verbatim>\<open>sourceCode.getDeclaredVariables\<close> and the syntax tree.
\<close>

record rule_context =
  allowEmptyReject :: bool
  couldBeError :: "node_id \<Rightarrow> bool"
  getDeclaredVariables :: "node_id \<Rightarrow> variable list"
  node_at :: "node_id \<Rightarrow> node"
  parent :: "node_id \<Rightarrow> node_id option"

text \<open>
  A runtime exception of the rule itself: reading a property of \<^verbatim>\<open>undefined\<close> or
  \<^verbatim>\<open>null\<close>. The string is the property that was read.
\<close>

datatype error = TypeError string

text \<open>\<^verbatim>\<open>context.report({ node, messageId })\<close> appends to the diagnostics.\<close>

type_synonym report = "node_id \<times> string"

definition report :: "node_id \<Rightarrow> string \<Rightarrow> report list \<Rightarrow> report list" where
  "report n messageId reports = reports @ [(n, messageId)]"

subsection \<open>checkRejectCall\<close>

definition checkRejectCall :: "rule_context \<Rightarrow> node_id \<Rightarrow> report list \<Rightarrow> error + report list" where
  "checkRejectCall ctx callExpression reports =
     (case arguments (node_at ctx callExpression) of
        None \<Rightarrow> Inl (TypeError ''length'')
      | Some as \<Rightarrow>
          if as = [] \<and> allowEmptyReject ctx then Inr reports
          else if (case as of
                     [] \<Rightarrow> True
                   | a0 # _ \<Rightarrow>
                       \<not> couldBeError ctx a0 \<or>
                       (node_type (node_at ctx a0) = ''Identifier'' \<and>
                        name (node_at ctx a0) = Some ''undefined''))
          then Inr (report callExpression ''rejectAnError'' reports)
          else Inr reports)"

subsection \<open>isPromiseRejectCall\<close>

text \<open>
  Modelled from the spec: \<^verbatim>\<open>astUtils.isSpecificMemberAccess\<close> is defined in
  \<^verbatim>\<open>./utils/ast-utils\<close>, which is not among the sources. The spec (4.1) gives what
  the rule relies on: the callee is "a member-access expression of the exact shape
  <identifier "Promise">.<identifier "reject">", matched by name only. The third field
  of \<open>MemberExpression\<close> is \<^verbatim>\<open>computed\<close>; the dot form has it false. A callee that
  is \<^verbatim>\<open>undefined\<close> is no member access.
\<close>

definition isSpecificMemberAccess ::
  "rule_context \<Rightarrow> node_id option \<Rightarrow> string \<Rightarrow> string \<Rightarrow> bool" where
  "isSpecificMemberAccess ctx n objectName propertyName =
     (case n of
        None \<Rightarrow> False
      | Some m \<Rightarrow>
          (case node_at ctx m of
             MemberExpression obj prop computed \<Rightarrow>
               \<not> computed \<and>
               node_at ctx obj = Identifier objectName \<and>
               node_at ctx prop = Identifier propertyName
           | _ \<Rightarrow> False))"

definition isPromiseRejectCall :: "rule_context \<Rightarrow> node_id \<Rightarrow> bool" where
  "isPromiseRejectCall ctx n =
     isSpecificMemberAccess ctx (callee (node_at ctx n)) ''Promise'' ''reject''"

subsection \<open>The listeners\<close>

definition CallExpression_listener ::
  "rule_context \<Rightarrow> node_id \<Rightarrow> report list \<Rightarrow> error + report list" where
  "CallExpression_listener ctx n reports =
     (if isPromiseRejectCall ctx n then checkRejectCall ctx n reports else Inr reports)"

text \<open>
  Modelled from the spec: \<^verbatim>\<open>astUtils.isFunction\<close> is defined in
  \<^verbatim>\<open>./utils/ast-utils\<close>, which is not among the sources. The spec (3, 4.2): a
  function-like node is "a node with an ordered list of declared parameters", an
  "ordinary function or arrow".
\<close>

definition isFunction :: "node \<Rightarrow> bool" where
  "isFunction n =
     (node_type n = ''FunctionExpression'' \<or> node_type n = ''ArrowFunctionExpression'')"

text \<open>
  The condition of the \<^verbatim>\<open>if\<close> in \<^verbatim>\<open>"NewExpression:exit"\<close>, evaluated left to
  right as \<^verbatim>\<open>&&\<close> does. When it holds the result is the callback
  \<^verbatim>\<open>node.arguments[0]\<close> with its second parameter \<^verbatim>\<open>node.arguments[0].params[1]\<close>,
  which the body of the \<^verbatim>\<open>if\<close> reads again.
\<close>

definition rejectParameter ::
  "rule_context \<Rightarrow> node_id \<Rightarrow> error + (node_id \<times> node_id) option" where
  "rejectParameter ctx n =
     (case callee (node_at ctx n) of
        None \<Rightarrow> Inl (TypeError ''type'')
      | Some c \<Rightarrow>
          if \<not> (node_type (node_at ctx c) = ''Identifier'' \<and>
                 name (node_at ctx c) = Some ''Promise'')
          then Inr None
          else
            (case arguments (node_at ctx n) of
               None \<Rightarrow> Inl (TypeError ''length'')
             | Some as \<Rightarrow>
                 if as = [] \<or> \<not> isFunction (node_at ctx (as ! 0)) then Inr None
                 else
                   (case params (node_at ctx (as ! 0)) of
                      None \<Rightarrow> Inl (TypeError ''length'')
                    | Some ps \<Rightarrow>
                        if 1 < length ps \<and>
                           node_type (node_at ctx (ps ! 1)) = ''Identifier''
                        then Inr (Some (as ! 0, ps ! 1))
                        else Inr None)))"

text \<open>
  \<^verbatim>\<open>ref.identifier.parent.type === "CallExpression" &&
  ref.identifier === ref.identifier.parent.callee\<close>: the read of \<^verbatim>\<open>.type\<close> throws
  when the parent pointer is not set.
\<close>

definition usedAsCallee :: "rule_context \<Rightarrow> reference \<Rightarrow> error + bool" where
  "usedAsCallee ctx ref =
     (case parent ctx (ref_identifier ref) of
        None \<Rightarrow> Inl (TypeError ''type'')
      | Some p \<Rightarrow>
          Inr (node_type (node_at ctx p) = ''CallExpression'' \<and>
               Some (ref_identifier ref) = callee (node_at ctx p)))"

text \<open>\<^verbatim>\<open>Array.prototype.filter\<close> with a callback that may throw.\<close>

fun filterE :: "('a \<Rightarrow> error + bool) \<Rightarrow> 'a list \<Rightarrow> error + 'a list" where
  "filterE p [] = Inr []"
| "filterE p (x # xs) =
     (case p x of
        Inl e \<Rightarrow> Inl e
      | Inr b \<Rightarrow>
          (case filterE p xs of
             Inl e \<Rightarrow> Inl e
           | Inr ys \<Rightarrow> Inr (if b then x # ys else ys)))"

text \<open>\<^verbatim>\<open>Array.prototype.forEach\<close> with a callback that updates the diagnostics.\<close>

fun forEachE :: "('a \<Rightarrow> 's \<Rightarrow> error + 's) \<Rightarrow> 'a list \<Rightarrow> 's \<Rightarrow> error + 's" where
  "forEachE f [] s = Inr s"
| "forEachE f (x # xs) s =
     (case f x s of Inl e \<Rightarrow> Inl e | Inr s' \<Rightarrow> forEachE f xs s')"

text \<open>
  The chain from \<^verbatim>\<open>getDeclaredVariables\<close> to the second \<^verbatim>\<open>filter\<close>:
  \<^verbatim>\<open>find\<close> returns \<^verbatim>\<open>undefined\<close> when no variable has the name, and the read of
  \<^verbatim>\<open>.references\<close> then throws.
\<close>

definition calleeReferences ::
  "rule_context \<Rightarrow> node_id \<Rightarrow> node_id \<Rightarrow> error + reference list" where
  "calleeReferences ctx fn p1 =
     (case find (\<lambda>variable. Some (vname variable) = name (node_at ctx p1))
             (getDeclaredVariables ctx fn) of
        None \<Rightarrow> Inl (TypeError ''references'')
      | Some variable \<Rightarrow>
          filterE (usedAsCallee ctx) (filter isRead (references variable)))"

text \<open>\<^verbatim>\<open>ref => checkRejectCall(ref.identifier.parent)\<close>\<close>

definition checkReference ::
  "rule_context \<Rightarrow> reference \<Rightarrow> report list \<Rightarrow> error + report list" where
  "checkReference ctx ref reports =
     (case parent ctx (ref_identifier ref) of
        None \<Rightarrow> Inl (TypeError ''arguments'')
      | Some p \<Rightarrow> checkRejectCall ctx p reports)"

definition NewExpression_exit ::
  "rule_context \<Rightarrow> node_id \<Rightarrow> report list \<Rightarrow> error + report list" where
  "NewExpression_exit ctx n reports =
     (case rejectParameter ctx n of
        Inl e \<Rightarrow> Inl e
      | Inr None \<Rightarrow> Inr reports
      | Inr (Some (fn, p1)) \<Rightarrow>
          (case calleeReferences ctx fn p1 of
             Inl e \<Rightarrow> Inl e
           | Inr refs \<Rightarrow> forEachE (checkReference ctx) refs reports))"

text \<open>
  The object \<^verbatim>\<open>create\<close> returns: the listeners by selector.
\<close>

definition create ::
  "rule_context \<Rightarrow> (string \<times> (node_id \<Rightarrow> report list \<Rightarrow> error + report list)) list" where
  "create ctx =
     [(''CallExpression'', CallExpression_listener ctx),
      (''NewExpression:exit'', NewExpression_exit ctx)]"

subsection \<open>The traversal\<close>

text \<open>
  Modelled from the spec: the traversal that drives the listeners is outside the
  sources. The spec (2, 5, 9): a single synchronous pass over one tree that calls a
  listener when it enters a node of the listener's kind, or, for a selector ending in
  \<^verbatim>\<open>:exit\<close>, when it leaves it. The order of the visits is left open: a run is any
  list of visits.
\<close>

datatype phase = Enter | Exit

definition selector :: "phase \<Rightarrow> node \<Rightarrow> string" where
  "selector ph n = (case ph of Enter \<Rightarrow> node_type n | Exit \<Rightarrow> node_type n @ '':exit'')"

definition visit ::
  "rule_context \<Rightarrow> phase \<times> node_id \<Rightarrow> report list \<Rightarrow> error + report list" where
  "visit ctx ev reports =
     (case map_of (create ctx) (selector (fst ev) (node_at ctx (snd ev))) of
        None \<Rightarrow> Inr reports
      | Some listener \<Rightarrow> listener (snd ev) reports)"

fun traverse ::
  "rule_context \<Rightarrow> (phase \<times> node_id) list \<Rightarrow> report list \<Rightarrow> error + report list" where
  "traverse ctx [] reports = Inr reports"
| "traverse ctx (ev # evs) reports =
     (case visit ctx ev reports of
        Inl e \<Rightarrow> Inl e
      | Inr reports' \<Rightarrow> traverse ctx evs reports')"

section \<open>Notions the properties are stated with\<close>

text \<open>
  A rejection site fails when the validator, run on it alone with no diagnostics yet,
  reports it.
\<close>

definition violates :: "rule_context \<Rightarrow> node_id \<Rightarrow> bool" where
  "violates ctx site = (checkRejectCall ctx site [] = Inr [(site, ''rejectAnError'')])"

text \<open>
  The spec's words for the references the locator keeps (4.2, step 4): a read reference
  whose immediately enclosing node is a call expression in which this very identifier
  is the callee.
\<close>

definition isInvocation :: "rule_context \<Rightarrow> reference \<Rightarrow> bool" where
  "isInvocation ctx ref =
     (isRead ref \<and>
      (case parent ctx (ref_identifier ref) of
         None \<Rightarrow> False
       | Some p \<Rightarrow>
           (case node_at ctx p of
              CallExpression c _ \<Rightarrow> c = ref_identifier ref
            | _ \<Rightarrow> False)))"

text \<open>
  The candidate rejection sites of one visit: the call itself when the classifier
  accepts it, the enclosing calls of the references the locator keeps when a
  \<^verbatim>\<open>new\<close> expression is left, none otherwise.
\<close>

definition directSites :: "rule_context \<Rightarrow> node_id \<Rightarrow> node_id list" where
  "directSites ctx n = (if isPromiseRejectCall ctx n then [n] else [])"

definition callbackSites :: "rule_context \<Rightarrow> node_id \<Rightarrow> error + node_id list" where
  "callbackSites ctx n =
     (case rejectParameter ctx n of
        Inl e \<Rightarrow> Inl e
      | Inr None \<Rightarrow> Inr []
      | Inr (Some (fn, p1)) \<Rightarrow>
          (case calleeReferences ctx fn p1 of
             Inl e \<Rightarrow> Inl e
           | Inr refs \<Rightarrow> Inr (List.map_filter (\<lambda>ref. parent ctx (ref_identifier ref)) refs)))"

definition candidateSites :: "rule_context \<Rightarrow> phase \<times> node_id \<Rightarrow> error + node_id list" where
  "candidateSites ctx ev =
     (if selector (fst ev) (node_at ctx (snd ev)) = ''CallExpression''
      then Inr (directSites ctx (snd ev))
      else if selector (fst ev) (node_at ctx (snd ev)) = ''NewExpression:exit''
      then callbackSites ctx (snd ev)
      else Inr [])"

fun allSites :: "rule_context \<Rightarrow> (phase \<times> node_id) list \<Rightarrow> error + node_id list" where
  "allSites ctx [] = Inr []"
| "allSites ctx (ev # evs) =
     (case candidateSites ctx ev of
        Inl e \<Rightarrow> Inl e
      | Inr ss \<Rightarrow>
          (case allSites ctx evs of
             Inl e \<Rightarrow> Inl e
           | Inr ss' \<Rightarrow> Inr (ss @ ss')))"

text \<open>
  What the rule takes for granted about its collaborators. The scope manager declares,
  for the function \<open>fn\<close>, a variable for each parameter that is a plain identifier; and
  the identifier of each reference to a variable of \<open>fn\<close> has its parent pointer set
  (the rule runs on exit for that reason).
\<close>

definition declaresParameters :: "rule_context \<Rightarrow> node_id \<Rightarrow> bool" where
  "declaresParameters ctx fn =
     (case params (node_at ctx fn) of
        None \<Rightarrow> True
      | Some ps \<Rightarrow>
          list_all
            (\<lambda>p. case name (node_at ctx p) of
                   None \<Rightarrow> True
                 | Some nm \<Rightarrow> nm \<in> set (map vname (getDeclaredVariables ctx fn)))
            ps)"

definition linkedReferences :: "rule_context \<Rightarrow> node_id \<Rightarrow> bool" where
  "linkedReferences ctx fn =
     list_all
       (\<lambda>variable.
          list_all (\<lambda>ref. parent ctx (ref_identifier ref) \<noteq> None) (references variable))
       (getDeclaredVariables ctx fn)"

text \<open>The first argument of a \<^verbatim>\<open>new\<close> expression, if there is one.\<close>

definition callbackOf :: "rule_context \<Rightarrow> node_id \<Rightarrow> node_id list" where
  "callbackOf ctx n =
     (case node_at ctx n of NewExpression _ as \<Rightarrow> take 1 as | _ \<Rightarrow> [])"

section \<open>Example trees\<close>

text \<open>A store given as a table of its nodes; every other address holds a \<open>Program\<close> node.\<close>

definition store :: "(node_id \<times> node) list \<Rightarrow> node_id \<Rightarrow> node" where
  "store tbl i = (case map_of tbl i of Some n \<Rightarrow> n | None \<Rightarrow> Program)"

text \<open>
  \<^verbatim>\<open>Promise.reject(); Promise.reject(undefined); Promise.reject(5, e)\<close>:
  the calls are at 10, 20 and 30.
\<close>

definition direct_nodes :: "(node_id \<times> node) list" where
  "direct_nodes =
     [(0, Program),
      (1, Identifier ''Promise''), (2, Identifier ''reject''),
      (3, MemberExpression 1 2 False),
      (10, CallExpression 3 []),
      (11, Identifier ''Promise''), (12, Identifier ''reject''),
      (13, MemberExpression 11 12 False),
      (14, Identifier ''undefined''),
      (20, CallExpression 13 [14]),
      (21, Identifier ''Promise''), (22, Identifier ''reject''),
      (23, MemberExpression 21 22 False),
      (24, Literal), (25, Identifier ''e''),
      (30, CallExpression 23 [24, 25])]"

definition direct_parent :: "node_id \<Rightarrow> node_id option" where
  "direct_parent = map_of
     [(1, 3), (2, 3), (3, 10), (10, 0),
      (11, 13), (12, 13), (13, 20), (14, 20), (20, 0),
      (21, 23), (22, 23), (23, 30), (24, 30), (25, 30), (30, 0)]"

text \<open>
  A stand-in for \<^verbatim>\<open>couldBeError\<close> on the example trees: identifiers, calls and
  \<^verbatim>\<open>new\<close> expressions may be errors, the other kinds may not.
\<close>

definition sample_couldBeError :: "(node_id \<Rightarrow> node) \<Rightarrow> node_id \<Rightarrow> bool" where
  "sample_couldBeError st i =
     (case st i of
        Identifier _ \<Rightarrow> True
      | CallExpression _ _ \<Rightarrow> True
      | NewExpression _ _ \<Rightarrow> True
      | MemberExpression _ _ _ \<Rightarrow> True
      | _ \<Rightarrow> False)"

definition direct_ctx :: "bool \<Rightarrow> rule_context" where
  "direct_ctx allow =
     \<lparr> allowEmptyReject = allow,
       couldBeError = sample_couldBeError (store direct_nodes),
       getDeclaredVariables = (\<lambda>_. []),
       node_at = store direct_nodes,
       parent = direct_parent \<rparr>"

text \<open>
  \<^verbatim>\<open>new Promise((resolve, reject) => { reject("bad"); resolve(reject);
  reject(reject); reject = f; reject(new Error("x")); reject(); })\<close>
  is the node 160, its callback 102;
  \<^verbatim>\<open>new Promise((resolve, {reject}) => { reject(1); })\<close> is the node 200;
  \<^verbatim>\<open>new window.Promise((resolve, reject) => { reject(1); })\<close> is the node 300;
  \<^verbatim>\<open>Promise((resolve, reject) => { reject(1); })\<close> is the node 400;
  \<^verbatim>\<open>new Promise(5)\<close> is the node 500 and
  \<^verbatim>\<open>new Promise(function (resolve) { })\<close> the node 510.
\<close>

definition callback_nodes :: "(node_id \<times> node) list" where
  "callback_nodes =
     [(100, Program),
      (101, Identifier ''Promise''),
      (102, ArrowFunctionExpression [103, 104]),
      (103, Identifier ''resolve''), (104, Identifier ''reject''),
      (105, BlockStatement),
      (110, CallExpression 111 [112]), (111, Identifier ''reject''), (112, Literal),
      (120, CallExpression 121 [122]), (121, Identifier ''resolve''),
      (122, Identifier ''reject''),
      (130, CallExpression 131 [132]), (131, Identifier ''reject''),
      (132, Identifier ''reject''),
      (140, AssignmentExpression), (141, Identifier ''reject''), (142, Identifier ''f''),
      (150, CallExpression 151 [152]), (151, Identifier ''reject''),
      (152, NewExpression 153 [154]), (153, Identifier ''Error''), (154, Literal),
      (155, CallExpression 156 []), (156, Identifier ''reject''),
      (160, NewExpression 101 [102]),
      (200, NewExpression 201 [202]), (201, Identifier ''Promise''),
      (202, ArrowFunctionExpression [203, 204]),
      (203, Identifier ''resolve''), (204, ObjectPattern), (205, BlockStatement),
      (206, Identifier ''reject''),
      (210, CallExpression 211 [212]), (211, Identifier ''reject''), (212, Literal),
      (300, NewExpression 301 [302]), (301, MemberExpression 303 304 False),
      (302, ArrowFunctionExpression [305, 306]),
      (303, Identifier ''window''), (304, Identifier ''Promise''),
      (305, Identifier ''resolve''), (306, Identifier ''reject''), (307, BlockStatement),
      (310, CallExpression 311 [312]), (311, Identifier ''reject''), (312, Literal),
      (400, CallExpression 401 [402]), (401, Identifier ''Promise''),
      (402, ArrowFunctionExpression [403, 404]),
      (403, Identifier ''resolve''), (404, Identifier ''reject''), (405, BlockStatement),
      (410, CallExpression 411 [412]), (411, Identifier ''reject''), (412, Literal),
      (500, NewExpression 501 [502]), (501, Identifier ''Promise''), (502, Literal),
      (510, NewExpression 511 [512]), (511, Identifier ''Promise''),
      (512, FunctionExpression [513]), (513, Identifier ''resolve''),
      (514, BlockStatement)]"

definition callback_parent :: "node_id \<Rightarrow> node_id option" where
  "callback_parent = map_of
     [(101, 160), (102, 160), (103, 102), (104, 102), (105, 102),
      (110, 105), (111, 110), (112, 110),
      (120, 105), (121, 120), (122, 120),
      (130, 105), (131, 130), (132, 130),
      (140, 105), (141, 140), (142, 140),
      (150, 105), (151, 150), (152, 150), (153, 152), (154, 152),
      (155, 105), (156, 155),
      (160, 100),
      (200, 100), (201, 200), (202, 200), (203, 202), (204, 202), (205, 202),
      (206, 204),
      (210, 205), (211, 210), (212, 210),
      (300, 100), (301, 300), (302, 300), (303, 301), (304, 301),
      (305, 302), (306, 302), (307, 302), (310, 307), (311, 310), (312, 310),
      (400, 100), (401, 400), (402, 400), (403, 402), (404, 402), (405, 402),
      (410, 405), (411, 410), (412, 410),
      (500, 100), (501, 500), (502, 500),
      (510, 100), (511, 510), (512, 510), (513, 512), (514, 512)]"

definition reject_references :: "reference list" where
  "reject_references =
     [\<lparr> isRead = True, ref_identifier = 111 \<rparr>,
      \<lparr> isRead = True, ref_identifier = 122 \<rparr>,
      \<lparr> isRead = True, ref_identifier = 131 \<rparr>,
      \<lparr> isRead = True, ref_identifier = 132 \<rparr>,
      \<lparr> isRead = False, ref_identifier = 141 \<rparr>,
      \<lparr> isRead = True, ref_identifier = 151 \<rparr>,
      \<lparr> isRead = True, ref_identifier = 156 \<rparr>]"

definition callback_variables :: "node_id \<Rightarrow> variable list" where
  "callback_variables fn =
     (if fn = 102 then
        [\<lparr> vname = ''resolve'', identifiers = [103],
           references = [\<lparr> isRead = True, ref_identifier = 121 \<rparr>] \<rparr>,
         \<lparr> vname = ''reject'', identifiers = [104], references = reject_references \<rparr>]
      else if fn = 202 then
        [\<lparr> vname = ''resolve'', identifiers = [203], references = [] \<rparr>,
         \<lparr> vname = ''reject'', identifiers = [206],
           references = [\<lparr> isRead = True, ref_identifier = 211 \<rparr>] \<rparr>]
      else if fn = 302 then
        [\<lparr> vname = ''resolve'', identifiers = [305], references = [] \<rparr>,
         \<lparr> vname = ''reject'', identifiers = [306],
           references = [\<lparr> isRead = True, ref_identifier = 311 \<rparr>] \<rparr>]
      else if fn = 402 then
        [\<lparr> vname = ''resolve'', identifiers = [403], references = [] \<rparr>,
         \<lparr> vname = ''reject'', identifiers = [404],
           references = [\<lparr> isRead = True, ref_identifier = 411 \<rparr>] \<rparr>]
      else if fn = 512 then
        [\<lparr> vname = ''resolve'', identifiers = [513], references = [] \<rparr>]
      else [])"

definition callback_ctx :: "bool \<Rightarrow> rule_context" where
  "callback_ctx allow =
     \<lparr> allowEmptyReject = allow,
       couldBeError = sample_couldBeError (store callback_nodes),
       getDeclaredVariables = callback_variables,
       node_at = store callback_nodes,
       parent = callback_parent \<rparr>"

text \<open>
  \<^verbatim>\<open>new Promise(function reject(resolve, reject) { reject(1); })\<close> is the node 600:
  its callback 602 is a function expression whose own name, the identifier 603, is the
  name of its second parameter 605. The function's declared variables are the variable
  of its own name, which nothing refers to (inside the function the name means the
  parameter), and then those of the parameters; the callee 611 of the call 610 is the
  one reference of the parameter's variable.
\<close>

definition named_nodes :: "(node_id \<times> node) list" where
  "named_nodes =
     [(0, Program),
      (600, NewExpression 601 [602]), (601, Identifier ''Promise''),
      (602, FunctionExpression [604, 605]),
      (603, Identifier ''reject''),
      (604, Identifier ''resolve''), (605, Identifier ''reject''),
      (606, BlockStatement),
      (610, CallExpression 611 [612]), (611, Identifier ''reject''), (612, Literal)]"

definition named_parent :: "node_id \<Rightarrow> node_id option" where
  "named_parent = map_of
     [(600, 0), (601, 600), (602, 600), (603, 602), (604, 602), (605, 602), (606, 602),
      (610, 606), (611, 610), (612, 610)]"

definition function_name_variable :: variable where
  "function_name_variable = \<lparr> vname = ''reject'', identifiers = [603], references = [] \<rparr>"

definition resolve_parameter_variable :: variable where
  "resolve_parameter_variable =
     \<lparr> vname = ''resolve'', identifiers = [604], references = [] \<rparr>"

definition reject_parameter_variable :: variable where
  "reject_parameter_variable =
     \<lparr> vname = ''reject'', identifiers = [605],
       references = [\<lparr> isRead = True, ref_identifier = 611 \<rparr>] \<rparr>"

definition named_variables :: "node_id \<Rightarrow> variable list" where
  "named_variables fn =
     (if fn = 602
      then [function_name_variable, resolve_parameter_variable, reject_parameter_variable]
      else [])"

definition named_ctx :: rule_context where
  "named_ctx =
     \<lparr> allowEmptyReject = False,
       couldBeError = sample_couldBeError (store named_nodes),
       getDeclaredVariables = named_variables,
       node_at = store named_nodes,
       parent = named_parent \<rparr>"

text \<open>
  A run over the callback tree: it enters and leaves the \<^verbatim>\<open>new Promise\<close> at 160
  and the call \<^verbatim>\<open>reject("bad")\<close> at 110 inside it, then the plain call at 400.
\<close>

definition sample_run :: "(phase \<times> node_id) list" where
  "sample_run = [(Enter, 160), (Enter, 110), (Exit, 110), (Exit, 160), (Enter, 400), (Exit, 400)]"

section \<open>Facts about the listeners\<close>

lemma node_type_Identifier: "(node_type n = ''Identifier'') = (\<exists>s. n = Identifier s)"
  by (cases n) simp_all

lemma node_type_CallExpression:
  "(node_type n = ''CallExpression'') = (\<exists>c as. n = CallExpression c as)"
  by (cases n) simp_all

lemma identifier_named:
  "(node_type n = ''Identifier'' \<and> name n = Some s) = (n = Identifier s)"
  by (cases n) auto

lemma visit_cases:
  "visit ctx (ph, n) reports =
     (case (ph, node_at ctx n) of
        (Enter, CallExpression _ _) \<Rightarrow> CallExpression_listener ctx n reports
      | (Exit, NewExpression _ _) \<Rightarrow> NewExpression_exit ctx n reports
      | _ \<Rightarrow> Inr reports)"
  by (cases ph; cases "node_at ctx n") (simp_all add: visit_def create_def selector_def)

lemma candidateSites_cases:
  "candidateSites ctx (ph, n) =
     (case (ph, node_at ctx n) of
        (Enter, CallExpression _ _) \<Rightarrow> Inr (directSites ctx n)
      | (Exit, NewExpression _ _) \<Rightarrow> callbackSites ctx n
      | _ \<Rightarrow> Inr [])"
  by (cases ph; cases "node_at ctx n") (simp_all add: candidateSites_def selector_def)

lemma checkRejectCall_on_call:
  assumes "node_at ctx s = CallExpression c as"
  shows "checkRejectCall ctx s reports =
           Inr (reports @ map (\<lambda>s. (s, ''rejectAnError'')) (filter (violates ctx) [s]))"
  using assms by (simp add: checkRejectCall_def violates_def report_def split: list.splits)

lemma filterE_usedAsCallee:
  "filterE (usedAsCallee ctx) rs =
     (if list_all (\<lambda>ref. parent ctx (ref_identifier ref) \<noteq> None) rs
      then Inr (filter (\<lambda>ref. case parent ctx (ref_identifier ref) of
                                 None \<Rightarrow> False
                               | Some p \<Rightarrow> (case node_at ctx p of
                                    CallExpression c _ \<Rightarrow> c = ref_identifier ref
                                  | _ \<Rightarrow> False)) rs)
      else Inl (TypeError ''type''))"
proof (induction rs)
  case Nil
  show ?case by simp
next
  case (Cons r rs)
  show ?case
  proof (cases "parent ctx (ref_identifier r)")
    case None
    then show ?thesis by (simp add: usedAsCallee_def)
  next
    case (Some p)
    then show ?thesis
      using Cons.IH
      by (cases "node_at ctx p") (auto simp: usedAsCallee_def)
  qed
qed

lemma filter_isInvocation:
  "filter (isInvocation ctx) rs =
     filter (\<lambda>ref. case parent ctx (ref_identifier ref) of
                     None \<Rightarrow> False
                   | Some p \<Rightarrow> (case node_at ctx p of
                        CallExpression c _ \<Rightarrow> c = ref_identifier ref
                      | _ \<Rightarrow> False)) (filter isRead rs)"
  by (induction rs) (auto simp: isInvocation_def)

lemma calleeReferences_eq:
  assumes "find (\<lambda>variable. Some (vname variable) = name (node_at ctx p1))
             (getDeclaredVariables ctx fn) = Some variable"
  shows "calleeReferences ctx fn p1 =
           (if list_all (\<lambda>ref. parent ctx (ref_identifier ref) \<noteq> None)
                 (filter isRead (references variable))
            then Inr (filter (isInvocation ctx) (references variable))
            else Inl (TypeError ''type''))"
  using assms
  by (simp add: calleeReferences_def filterE_usedAsCallee filter_isInvocation)

lemma isInvocation_site:
  "isInvocation ctx ref \<Longrightarrow>
     \<exists>p as. parent ctx (ref_identifier ref) = Some p \<and>
            node_at ctx p = CallExpression (ref_identifier ref) as"
  by (auto simp: isInvocation_def split: option.splits node.splits)

lemma forEachE_checkReference:
  assumes "\<forall>ref\<in>set refs. isInvocation ctx ref"
  shows "forEachE (checkReference ctx) refs reports =
           Inr (reports @ map (\<lambda>s. (s, ''rejectAnError''))
                  (filter (violates ctx)
                     (List.map_filter (\<lambda>ref. parent ctx (ref_identifier ref)) refs)))"
  using assms
proof (induction refs arbitrary: reports)
  case Nil
  show ?case by simp
next
  case (Cons r refs)
  from Cons.prems obtain p as where p: "parent ctx (ref_identifier r) = Some p"
    and call: "node_at ctx p = CallExpression (ref_identifier r) as"
    using isInvocation_site [of ctx r] by auto
  have rest: "\<forall>ref\<in>set refs. isInvocation ctx ref"
    using Cons.prems by simp
  show ?case
    using p Cons.IH [OF rest] checkRejectCall_on_call [OF call]
    by (simp add: checkReference_def)
qed

lemma calleeReferences_invocations:
  assumes "calleeReferences ctx fn p1 = Inr refs"
  shows "\<forall>ref\<in>set refs. isInvocation ctx ref"
proof -
  from assms obtain variable where
    "find (\<lambda>variable. Some (vname variable) = name (node_at ctx p1))
       (getDeclaredVariables ctx fn) = Some variable"
    by (auto simp: calleeReferences_def split: option.splits)
  from calleeReferences_eq [OF this] assms
  have "refs = filter (isInvocation ctx) (references variable)"
    by (simp split: if_splits)
  then show ?thesis by simp
qed

lemma NewExpression_exit_sites:
  "NewExpression_exit ctx n reports =
     (case callbackSites ctx n of
        Inl e \<Rightarrow> Inl e
      | Inr sites \<Rightarrow>
          Inr (reports @ map (\<lambda>s. (s, ''rejectAnError'')) (filter (violates ctx) sites)))"
proof (cases "rejectParameter ctx n")
  case (Inl e)
  then show ?thesis by (simp add: NewExpression_exit_def callbackSites_def)
next
  case (Inr r)
  show ?thesis
  proof (cases r)
    case None
    with Inr show ?thesis by (simp add: NewExpression_exit_def callbackSites_def)
  next
    case (Some fp)
    obtain fn p1 where fp: "fp = (fn, p1)" by (cases fp)
    show ?thesis
    proof (cases "calleeReferences ctx fn p1")
      case (Inl e)
      with Inr Some fp show ?thesis
        by (simp add: NewExpression_exit_def callbackSites_def)
    next
      case refs: (Inr refs)
      from forEachE_checkReference [OF calleeReferences_invocations [OF refs]]
      show ?thesis
        using Inr Some fp refs by (simp add: NewExpression_exit_def callbackSites_def)
    qed
  qed
qed

text \<open>
  What the listener does with the variable it finds: when the guard holds, the lookup by
  name finds \<open>variable\<close> and its read references have their parent pointers, the
  diagnostics added are those of the failing calls among the enclosing calls of the
  read references of \<open>variable\<close> that are the callee of their parent call.
\<close>

lemma NewExpression_exit_found_variable:
  assumes "rejectParameter ctx n = Inr (Some (fn, p1))"
    and "find (\<lambda>variable. Some (vname variable) = name (node_at ctx p1))
           (getDeclaredVariables ctx fn) = Some variable"
    and "list_all (\<lambda>ref. parent ctx (ref_identifier ref) \<noteq> None)
           (filter isRead (references variable))"
  shows "callbackSites ctx n =
           Inr (List.map_filter (\<lambda>ref. parent ctx (ref_identifier ref))
                  (filter (isInvocation ctx) (references variable)))"
    and "NewExpression_exit ctx n reports =
           Inr (reports @ map (\<lambda>s. (s, ''rejectAnError''))
                  (filter (violates ctx)
                     (List.map_filter (\<lambda>ref. parent ctx (ref_identifier ref))
                        (filter (isInvocation ctx) (references variable)))))"
proof -
  from calleeReferences_eq [OF assms(2)] assms(3)
  have "calleeReferences ctx fn p1 = Inr (filter (isInvocation ctx) (references variable))"
    by simp
  with assms(1) show sites: "callbackSites ctx n =
           Inr (List.map_filter (\<lambda>ref. parent ctx (ref_identifier ref))
                  (filter (isInvocation ctx) (references variable)))"
    by (simp add: callbackSites_def)
  then show "NewExpression_exit ctx n reports =
           Inr (reports @ map (\<lambda>s. (s, ''rejectAnError''))
                  (filter (violates ctx)
                     (List.map_filter (\<lambda>ref. parent ctx (ref_identifier ref))
                        (filter (isInvocation ctx) (references variable)))))"
    by (simp add: NewExpression_exit_sites)
qed

lemma CallExpression_listener_sites:
  assumes "node_at ctx n = CallExpression c as"
  shows "CallExpression_listener ctx n reports =
           Inr (reports @ map (\<lambda>s. (s, ''rejectAnError''))
                  (filter (violates ctx) (directSites ctx n)))"
  using checkRejectCall_on_call [OF assms]
  by (simp add: CallExpression_listener_def directSites_def)

lemma visit_sites:
  "visit ctx ev reports =
     (case candidateSites ctx ev of
        Inl e \<Rightarrow> Inl e
      | Inr sites \<Rightarrow>
          Inr (reports @ map (\<lambda>s. (s, ''rejectAnError'')) (filter (violates ctx) sites)))"
proof -
  obtain ph n where ev: "ev = (ph, n)" by (cases ev)
  show ?thesis
    unfolding ev visit_cases candidateSites_cases
    by (cases ph; cases "node_at ctx n")
       (simp_all add: NewExpression_exit_sites CallExpression_listener_sites)
qed

lemma traverse_sites:
  "traverse ctx evs reports =
     (case allSites ctx evs of
        Inl e \<Rightarrow> Inl e
      | Inr sites \<Rightarrow>
          Inr (reports @ map (\<lambda>s. (s, ''rejectAnError'')) (filter (violates ctx) sites)))"
proof (induction evs arbitrary: reports)
  case Nil
  show ?case by simp
next
  case (Cons ev evs)
  show ?case
    by (simp add: visit_sites Cons.IH split: sum.splits)
qed

lemma traverse_append_reports:
  "traverse ctx evs reports =
     (case traverse ctx evs [] of Inl e \<Rightarrow> Inl e | Inr rs \<Rightarrow> Inr (reports @ rs))"
  by (simp add: traverse_sites split: sum.splits)


lemma rejectParameter_new:
  assumes "node_at ctx n = NewExpression c as"
  shows "rejectParameter ctx n = Inr None \<or>
         (\<exists>fn p1 ps nm. rejectParameter ctx n = Inr (Some (fn, p1)) \<and>
            fn \<in> set (callbackOf ctx n) \<and> params (node_at ctx fn) = Some ps \<and>
            p1 \<in> set ps \<and> node_at ctx p1 = Identifier nm)"
proof (cases as)
  case Nil
  with assms show ?thesis by (simp add: rejectParameter_def)
next
  case (Cons fn rest)
  with assms show ?thesis
    by (cases "node_at ctx fn")
       (auto simp: rejectParameter_def isFunction_def callbackOf_def node_type_Identifier)
qed

lemma find_declared:
  assumes "declaresParameters ctx fn" and "params (node_at ctx fn) = Some ps"
    and "p1 \<in> set ps" and "node_at ctx p1 = Identifier nm"
  shows "\<exists>variable. find (\<lambda>variable. Some (vname variable) = name (node_at ctx p1))
           (getDeclaredVariables ctx fn) = Some variable \<and>
           variable \<in> set (getDeclaredVariables ctx fn)"
proof -
  from assms have "nm \<in> set (map vname (getDeclaredVariables ctx fn))"
    by (auto simp: declaresParameters_def list_all_iff)
  then have "find (\<lambda>variable. Some (vname variable) = name (node_at ctx p1))
           (getDeclaredVariables ctx fn) \<noteq> None"
    using assms(4) by (auto simp: find_None_iff)
  then obtain variable where f: "find (\<lambda>variable. Some (vname variable) = name (node_at ctx p1))
           (getDeclaredVariables ctx fn) = Some variable"
    by auto
  then have "variable \<in> set (getDeclaredVariables ctx fn)"
    by (auto simp: find_Some_iff)
  with f show ?thesis by blast
qed

lemma callbackSites_new:
  assumes "node_at ctx n = NewExpression c as"
    and "\<forall>fn\<in>set (callbackOf ctx n). declaresParameters ctx fn"
  shows "callbackSites ctx n \<noteq> Inl (TypeError ''references'') \<and>
         ((\<forall>fn\<in>set (callbackOf ctx n). linkedReferences ctx fn) \<longrightarrow>
            (\<exists>sites. callbackSites ctx n = Inr sites))"
proof -
  from rejectParameter_new [OF assms(1)] show ?thesis
  proof
    assume "rejectParameter ctx n = Inr None"
    then show ?thesis by (simp add: callbackSites_def)
  next
    assume "\<exists>fn p1 ps nm. rejectParameter ctx n = Inr (Some (fn, p1)) \<and>
            fn \<in> set (callbackOf ctx n) \<and> params (node_at ctx fn) = Some ps \<and>
            p1 \<in> set ps \<and> node_at ctx p1 = Identifier nm"
    then obtain fn p1 ps nm where r: "rejectParameter ctx n = Inr (Some (fn, p1))"
      and fn: "fn \<in> set (callbackOf ctx n)" and ps: "params (node_at ctx fn) = Some ps"
      and p1: "p1 \<in> set ps" and nm: "node_at ctx p1 = Identifier nm"
      by blast
    from fn assms(2) have "declaresParameters ctx fn" by blast
    from find_declared [OF this ps p1 nm] obtain variable where
      f: "find (\<lambda>variable. Some (vname variable) = name (node_at ctx p1))
           (getDeclaredVariables ctx fn) = Some variable"
      and v: "variable \<in> set (getDeclaredVariables ctx fn)"
      by blast
    have eq: "calleeReferences ctx fn p1 =
           (if list_all (\<lambda>ref. parent ctx (ref_identifier ref) \<noteq> None)
                 (filter isRead (references variable))
            then Inr (filter (isInvocation ctx) (references variable))
            else Inl (TypeError ''type''))"
      using f by (simp add: calleeReferences_def filterE_usedAsCallee filter_isInvocation)
    have first: "callbackSites ctx n \<noteq> Inl (TypeError ''references'')"
      using r eq by (simp add: callbackSites_def)
    have second: "\<exists>sites. callbackSites ctx n = Inr sites"
      if "\<forall>fn\<in>set (callbackOf ctx n). linkedReferences ctx fn"
    proof -
      from that fn have "linkedReferences ctx fn" by blast
      with v have "list_all (\<lambda>ref. parent ctx (ref_identifier ref) \<noteq> None)
                 (filter isRead (references variable))"
        by (auto simp: linkedReferences_def list_all_iff)
      with r eq show ?thesis by (simp add: callbackSites_def)
    qed
    from first second show ?thesis by blast
  qed
qed

lemma candidateSites_safe:
  assumes "\<forall>fn\<in>set (callbackOf ctx (snd ev)). declaresParameters ctx fn"
  shows "candidateSites ctx ev \<noteq> Inl (TypeError ''references'') \<and>
         ((\<forall>fn\<in>set (callbackOf ctx (snd ev)). linkedReferences ctx fn) \<longrightarrow>
            (\<exists>sites. candidateSites ctx ev = Inr sites))"
proof -
  obtain ph n where ev: "ev = (ph, n)" by (cases ev)
  show ?thesis
  proof (cases "\<exists>c as. ph = Exit \<and> node_at ctx n = NewExpression c as")
    case True
    then obtain c as where new: "node_at ctx n = NewExpression c as" and ph: "ph = Exit"
      by blast
    from callbackSites_new [OF new] assms ev
    show ?thesis by (simp add: candidateSites_cases new ph)
  next
    case False
    then show ?thesis
      unfolding ev candidateSites_cases
      by (cases ph; cases "node_at ctx n") simp_all
  qed
qed

lemma allSites_safe:
  assumes "\<forall>ev\<in>set evs. \<forall>fn\<in>set (callbackOf ctx (snd ev)). declaresParameters ctx fn"
  shows "allSites ctx evs \<noteq> Inl (TypeError ''references'') \<and>
         ((\<forall>ev\<in>set evs. \<forall>fn\<in>set (callbackOf ctx (snd ev)). linkedReferences ctx fn) \<longrightarrow>
            (\<exists>sites. allSites ctx evs = Inr sites))"
  using assms
proof (induction evs)
  case Nil
  show ?case by simp
next
  case (Cons ev evs)
  from Cons.prems have d: "\<forall>fn\<in>set (callbackOf ctx (snd ev)). declaresParameters ctx fn"
    and ds: "\<forall>ev\<in>set evs. \<forall>fn\<in>set (callbackOf ctx (snd ev)). declaresParameters ctx fn"
    by simp_all
  from candidateSites_safe [OF d] Cons.IH [OF ds]
  show ?case
    by (auto split: sum.splits)
qed

section \<open>Facts about the example trees\<close>

lemmas example_defs =
  store_def sample_couldBeError_def direct_nodes_def direct_parent_def direct_ctx_def
  callback_nodes_def callback_parent_def reject_references_def callback_variables_def
  callback_ctx_def

lemma callback_node_at:
  "node_at (callback_ctx allow) 101 = Identifier ''Promise''"
  "node_at (callback_ctx allow) 102 = ArrowFunctionExpression [103, 104]"
  "node_at (callback_ctx allow) 103 = Identifier ''resolve''"
  "node_at (callback_ctx allow) 104 = Identifier ''reject''"
  "node_at (callback_ctx allow) 110 = CallExpression 111 [112]"
  "node_at (callback_ctx allow) 111 = Identifier ''reject''"
  "node_at (callback_ctx allow) 112 = Literal"
  "node_at (callback_ctx allow) 120 = CallExpression 121 [122]"
  "node_at (callback_ctx allow) 130 = CallExpression 131 [132]"
  "node_at (callback_ctx allow) 132 = Identifier ''reject''"
  "node_at (callback_ctx allow) 140 = AssignmentExpression"
  "node_at (callback_ctx allow) 150 = CallExpression 151 [152]"
  "node_at (callback_ctx allow) 152 = NewExpression 153 [154]"
  "node_at (callback_ctx allow) 155 = CallExpression 156 []"
  "node_at (callback_ctx allow) 160 = NewExpression 101 [102]"
  "node_at (callback_ctx allow) 300 = NewExpression 301 [302]"
  "node_at (callback_ctx allow) 301 = MemberExpression 303 304 False"
  "node_at (callback_ctx allow) 400 = CallExpression 401 [402]"
  "node_at (callback_ctx allow) 401 = Identifier ''Promise''"
  by (simp_all add: callback_ctx_def store_def callback_nodes_def)

lemma callback_parent_at:
  "parent (callback_ctx allow) 111 = Some 110"
  "parent (callback_ctx allow) 121 = Some 120"
  "parent (callback_ctx allow) 122 = Some 120"
  "parent (callback_ctx allow) 131 = Some 130"
  "parent (callback_ctx allow) 132 = Some 130"
  "parent (callback_ctx allow) 141 = Some 140"
  "parent (callback_ctx allow) 151 = Some 150"
  "parent (callback_ctx allow) 156 = Some 155"
  by (simp_all add: callback_ctx_def callback_parent_def)

lemma callback_couldBeError:
  "\<not> couldBeError (callback_ctx allow) 112"
  "couldBeError (callback_ctx allow) 132"
  "couldBeError (callback_ctx allow) 152"
  by (simp_all add: callback_ctx_def sample_couldBeError_def store_def callback_nodes_def)

lemma callback_variables_102:
  "getDeclaredVariables (callback_ctx allow) 102 =
     [\<lparr> vname = ''resolve'', identifiers = [103],
        references = [\<lparr> isRead = True, ref_identifier = 121 \<rparr>] \<rparr>,
      \<lparr> vname = ''reject'', identifiers = [104], references = reject_references \<rparr>]"
  by (simp add: callback_ctx_def callback_variables_def)

lemma callback_allowEmptyReject: "allowEmptyReject (callback_ctx allow) = allow"
  by (simp add: callback_ctx_def)

lemmas callback_facts =
  callback_node_at callback_parent_at callback_couldBeError callback_variables_102
  callback_allowEmptyReject reject_references_def

lemma callback_rejectParameter:
  "rejectParameter (callback_ctx allow) 160 = Inr (Some (102, 104))"
  by (simp add: rejectParameter_def isFunction_def callback_facts)

lemma callback_calleeReferences:
  "calleeReferences (callback_ctx allow) 102 104 =
     Inr [\<lparr> isRead = True, ref_identifier = 111 \<rparr>,
          \<lparr> isRead = True, ref_identifier = 131 \<rparr>,
          \<lparr> isRead = True, ref_identifier = 151 \<rparr>,
          \<lparr> isRead = True, ref_identifier = 156 \<rparr>]"
  by (simp add: calleeReferences_def usedAsCallee_def callback_facts)

lemma callback_callbackSites:
  "callbackSites (callback_ctx allow) 160 = Inr [110, 130, 150, 155]"
  by (simp add: callbackSites_def callback_rejectParameter callback_calleeReferences
      callback_facts)

lemma callback_violates:
  "violates (callback_ctx allow) 110"
  "\<not> violates (callback_ctx allow) 130"
  "\<not> violates (callback_ctx allow) 150"
  "violates (callback_ctx False) 155"
  "\<not> violates (callback_ctx True) 155"
  by (simp_all add: violates_def checkRejectCall_def report_def callback_facts)

lemma sample_allSites: "allSites (callback_ctx allow) sample_run = Inr [110, 130, 150, 155]"
  by (simp add: sample_run_def candidateSites_cases callback_callbackSites directSites_def
      isPromiseRejectCall_def isSpecificMemberAccess_def callback_facts)

lemma callback_callbackOf:
  "callbackOf (callback_ctx allow) 160 = [102]"
  "callbackOf (callback_ctx allow) 110 = []"
  "callbackOf (callback_ctx allow) 400 = []"
  by (simp_all add: callbackOf_def callback_facts)

lemma callback_declares:
  "declaresParameters (callback_ctx allow) 102"
  "linkedReferences (callback_ctx allow) 102"
  by (simp_all add: declaresParameters_def linkedReferences_def callback_facts)

lemma named_node_at:
  "node_at named_ctx 600 = NewExpression 601 [602]"
  "node_at named_ctx 601 = Identifier ''Promise''"
  "node_at named_ctx 602 = FunctionExpression [604, 605]"
  "node_at named_ctx 604 = Identifier ''resolve''"
  "node_at named_ctx 605 = Identifier ''reject''"
  "node_at named_ctx 610 = CallExpression 611 [612]"
  "node_at named_ctx 611 = Identifier ''reject''"
  "node_at named_ctx 612 = Literal"
  by (simp_all add: named_ctx_def store_def named_nodes_def)

lemma named_context:
  "parent named_ctx 611 = Some 610"
  "\<not> couldBeError named_ctx 612"
  "\<not> allowEmptyReject named_ctx"
  "getDeclaredVariables named_ctx 602 =
     [function_name_variable, resolve_parameter_variable, reject_parameter_variable]"
  by (simp_all add: named_ctx_def named_parent_def named_variables_def
      sample_couldBeError_def store_def named_nodes_def)

lemmas named_facts = named_node_at named_context

section \<open>The argument validator\<close>

text \<open>
  C1. For a rejection call with at least one argument, \<open>checkRejectCall\<close> reports the
  call exactly when \<^verbatim>\<open>couldBeError\<close> rejects the first argument or the first
  argument is the identifier \<^verbatim>\<open>undefined\<close>. In particular the identifier
  \<^verbatim>\<open>undefined\<close> is reported whatever \<^verbatim>\<open>couldBeError\<close> says of it.
\<close>

theorem checkRejectCall_first_argument:
  assumes "arguments (node_at ctx callExpression) = Some (a0 # rest)"
  shows "checkRejectCall ctx callExpression reports =
           Inr (if \<not> couldBeError ctx a0 \<or> node_at ctx a0 = Identifier ''undefined''
                then reports @ [(callExpression, ''rejectAnError'')]
                else reports) \<and>
         (node_at ctx a0 = Identifier ''undefined'' \<longrightarrow>
            checkRejectCall ctx callExpression reports =
              Inr (reports @ [(callExpression, ''rejectAnError'')]))"
  using assms identifier_named [of "node_at ctx a0" "''undefined''"]
  by (simp add: checkRejectCall_def report_def)

theorem checkRejectCall_first_argument_witness:
  "arguments (node_at (direct_ctx False) 20) = Some [14] \<and>
   couldBeError (direct_ctx False) 14 \<and>
   node_at (direct_ctx False) 14 = Identifier ''undefined'' \<and>
   checkRejectCall (direct_ctx False) 20 [] = Inr [(20, ''rejectAnError'')]"
proof -
  have a: "arguments (node_at (direct_ctx False) 20) = Some (14 # [])"
    by (simp add: example_defs)
  have b: "couldBeError (direct_ctx False) 14"
    by (simp add: example_defs)
  have c: "node_at (direct_ctx False) 14 = Identifier ''undefined''"
    by (simp add: example_defs)
  from checkRejectCall_first_argument [OF a, of "[]"] a b c
  show ?thesis by simp
qed

text \<open>
  C2. A rejection call with no argument is reported exactly when \<open>allowEmptyReject\<close> is
  false; when the option is true the diagnostics are left as they were.
\<close>

theorem checkRejectCall_no_arguments:
  assumes "arguments (node_at ctx callExpression) = Some []"
  shows "checkRejectCall ctx callExpression reports =
           Inr (if allowEmptyReject ctx then reports
                else reports @ [(callExpression, ''rejectAnError'')])"
  using assms by (simp add: checkRejectCall_def report_def)

theorem checkRejectCall_no_arguments_witness:
  "arguments (node_at (direct_ctx False) 10) = Some [] \<and>
   checkRejectCall (direct_ctx False) 10 [] = Inr [(10, ''rejectAnError'')] \<and>
   arguments (node_at (direct_ctx True) 10) = Some [] \<and>
   checkRejectCall (direct_ctx True) 10 [] = Inr []"
proof -
  have a: "arguments (node_at (direct_ctx False) 10) = Some []"
    by (simp add: direct_ctx_def store_def direct_nodes_def)
  have b: "arguments (node_at (direct_ctx True) 10) = Some []"
    by (simp add: direct_ctx_def store_def direct_nodes_def)
  show ?thesis
    using a b checkRejectCall_no_arguments [OF a, of "[]"]
      checkRejectCall_no_arguments [OF b, of "[]"]
    by (simp add: direct_ctx_def)
qed

text \<open>
  C7. The validator looks at nothing beyond the first argument: two rejection sites,
  in the same tree or in two trees, checked under the same \<open>allowEmptyReject\<close>, that
  agree on whether there is an argument and, when there is one, on the first argument
  (the node and what \<^verbatim>\<open>couldBeError\<close> says of it), are both reported or both
  accepted, whatever arguments follow the first.
\<close>

theorem validator_reads_first_argument_only:
  assumes "allowEmptyReject ctx1 = allowEmptyReject ctx2"
    and "arguments (node_at ctx1 s1) = Some as1"
    and "arguments (node_at ctx2 s2) = Some as2"
    and "(as1 = []) = (as2 = [])"
    and "\<forall>a1 rest1 a2 rest2. as1 = a1 # rest1 \<and> as2 = a2 # rest2 \<longrightarrow>
           couldBeError ctx1 a1 = couldBeError ctx2 a2 \<and> node_at ctx1 a1 = node_at ctx2 a2"
  shows "violates ctx1 s1 = violates ctx2 s2"
  using assms
  by (cases as1; cases as2) (simp_all add: violates_def checkRejectCall_def report_def)

theorem validator_reads_first_argument_only_witness:
  "arguments (node_at (direct_ctx False) 30) = Some [24, 25] \<and>
   arguments (node_at (callback_ctx False) 110) = Some [112] \<and>
   couldBeError (direct_ctx False) 24 = couldBeError (callback_ctx False) 112 \<and>
   node_at (direct_ctx False) 24 = node_at (callback_ctx False) 112 \<and>
   violates (direct_ctx False) 30 = violates (callback_ctx False) 110 \<and>
   violates (callback_ctx False) 110"
proof -
  have a: "allowEmptyReject (direct_ctx False) = allowEmptyReject (callback_ctx False)"
    by (simp add: direct_ctx_def callback_ctx_def)
  have b: "arguments (node_at (direct_ctx False) 30) = Some [24, 25]"
    by (simp add: direct_ctx_def store_def direct_nodes_def)
  have c: "arguments (node_at (callback_ctx False) 110) = Some [112]"
    by (simp add: callback_facts)
  have d: "([24, 25 :: node_id] = []) = ([112 :: node_id] = [])"
    by simp
  have e: "couldBeError (direct_ctx False) 24 = couldBeError (callback_ctx False) 112"
    "node_at (direct_ctx False) 24 = node_at (callback_ctx False) 112"
    by (simp_all add: callback_facts direct_ctx_def store_def direct_nodes_def
        sample_couldBeError_def)
  have f: "\<forall>a1 rest1 a2 rest2. [24, 25 :: node_id] = a1 # rest1 \<and> [112 :: node_id] = a2 # rest2 \<longrightarrow>
             couldBeError (direct_ctx False) a1 = couldBeError (callback_ctx False) a2 \<and>
             node_at (direct_ctx False) a1 = node_at (callback_ctx False) a2"
    using e by simp
  from validator_reads_first_argument_only [OF a b c d f] b c e callback_violates(1)
  show ?thesis by simp
qed

section \<open>The call-site classifier\<close>

text \<open>
  C3. For a call expression, \<open>isPromiseRejectCall\<close> holds exactly when the callee is a
  member access, written with a dot, of the identifier \<^verbatim>\<open>Promise\<close> and the
  identifier \<^verbatim>\<open>reject\<close>. The answer does not change with the declared variables,
  the parent pointers, \<^verbatim>\<open>couldBeError\<close> or the option: only names in the tree
  are read.
\<close>

theorem isPromiseRejectCall_shape:
  assumes "node_at ctx n = CallExpression c as"
  shows "(isPromiseRejectCall ctx n \<longleftrightarrow>
            (\<exists>obj prop. node_at ctx c = MemberExpression obj prop False \<and>
                        node_at ctx obj = Identifier ''Promise'' \<and>
                        node_at ctx prop = Identifier ''reject'')) \<and>
         isPromiseRejectCall
           (ctx\<lparr> allowEmptyReject := a, couldBeError := e,
                 getDeclaredVariables := g, parent := p \<rparr>) n =
           isPromiseRejectCall ctx n"
  using assms
  by (cases "node_at ctx c")
     (simp_all add: isPromiseRejectCall_def isSpecificMemberAccess_def)

theorem isPromiseRejectCall_shape_witness:
  "node_at (direct_ctx False) 30 = CallExpression 23 [24, 25] \<and>
   isPromiseRejectCall (direct_ctx False) 30 \<and>
   node_at (callback_ctx False) 110 = CallExpression 111 [112] \<and>
   \<not> isPromiseRejectCall (callback_ctx False) 110"
proof -
  have a: "node_at (direct_ctx False) 30 = CallExpression 23 [24, 25]"
    by (simp add: example_defs)
  have b: "node_at (callback_ctx False) 110 = CallExpression 111 [112]"
    by (simp add: example_defs)
  have m: "node_at (direct_ctx False) 23 = MemberExpression 21 22 False"
    "node_at (direct_ctx False) 21 = Identifier ''Promise''"
    "node_at (direct_ctx False) 22 = Identifier ''reject''"
    "node_at (callback_ctx False) 111 = Identifier ''reject''"
    by (simp_all add: example_defs)
  from isPromiseRejectCall_shape [OF a] isPromiseRejectCall_shape [OF b] a b m
  show ?thesis by simp
qed

section \<open>The callback-reject locator\<close>

text \<open>
  C4. When a \<^verbatim>\<open>new\<close> expression has no argument, or its first argument is not a
  function, or that function has fewer than two parameters, or its second parameter
  is not a plain identifier (it is destructured, has a default or is a rest element),
  the locator yields no rejection site, the listener leaves the diagnostics as they
  were, and nothing is thrown.
\<close>

theorem untrackable_callback_yields_no_site:
  assumes "node_at ctx n = NewExpression c as"
    and "case as of
           [] \<Rightarrow> True
         | fn # _ \<Rightarrow>
             (case node_at ctx fn of
                FunctionExpression ps \<Rightarrow>
                  length ps < 2 \<or> (\<forall>s. node_at ctx (ps ! 1) \<noteq> Identifier s)
              | ArrowFunctionExpression ps \<Rightarrow>
                  length ps < 2 \<or> (\<forall>s. node_at ctx (ps ! 1) \<noteq> Identifier s)
              | _ \<Rightarrow> True)"
  shows "callbackSites ctx n = Inr [] \<and> NewExpression_exit ctx n reports = Inr reports"
proof -
  have "rejectParameter ctx n = Inr None"
  proof (cases as)
    case Nil
    with assms(1) show ?thesis by (simp add: rejectParameter_def)
  next
    case (Cons fn rest)
    with assms show ?thesis
      by (cases "node_at ctx fn")
         (auto simp: rejectParameter_def isFunction_def node_type_Identifier)
  qed
  then show ?thesis
    by (simp add: callbackSites_def NewExpression_exit_def)
qed

theorem untrackable_callback_yields_no_site_witness:
  "node_at (callback_ctx False) 200 = NewExpression 201 [202] \<and>
   node_at (callback_ctx False) 202 = ArrowFunctionExpression [203, 204] \<and>
   node_at (callback_ctx False) 204 = ObjectPattern \<and>
   callbackSites (callback_ctx False) 200 = Inr [] \<and>
   NewExpression_exit (callback_ctx False) 200 [] = Inr [] \<and>
   node_at (callback_ctx False) 500 = NewExpression 501 [502] \<and>
   node_at (callback_ctx False) 502 = Literal \<and>
   NewExpression_exit (callback_ctx False) 500 [] = Inr [] \<and>
   node_at (callback_ctx False) 510 = NewExpression 511 [512] \<and>
   node_at (callback_ctx False) 512 = FunctionExpression [513] \<and>
   NewExpression_exit (callback_ctx False) 510 [] = Inr []"
proof -
  have n: "node_at (callback_ctx False) 200 = NewExpression 201 [202]"
    "node_at (callback_ctx False) 202 = ArrowFunctionExpression [203, 204]"
    "node_at (callback_ctx False) 204 = ObjectPattern"
    "node_at (callback_ctx False) 500 = NewExpression 501 [502]"
    "node_at (callback_ctx False) 502 = Literal"
    "node_at (callback_ctx False) 510 = NewExpression 511 [512]"
    "node_at (callback_ctx False) 512 = FunctionExpression [513]"
    by (simp_all add: example_defs)
  from untrackable_callback_yields_no_site [OF n(1), of "[]"]
    untrackable_callback_yields_no_site [OF n(4), of "[]"]
    untrackable_callback_yields_no_site [OF n(6), of "[]"] n
  show ?thesis by simp
qed

text \<open>
  C5. The claim: of the references of the reject parameter's variable, exactly the read
  references whose identifier is the callee of its parent call yield a rejection site.
  The listener looks the variable up by name among the declared variables of the
  callback and takes the first match. On
  \<^verbatim>\<open>new Promise(function reject(resolve, reject) { reject(1); })\<close> the first match
  is the variable of the function's own name, which has no reference: the parameter's
  variable has a read reference that is the callee of \<^verbatim>\<open>reject(1)\<close>, a call the
  validator would report, and yet the listener yields no site and no diagnostic.
\<close>

theorem named_function_hides_reject_parameter:
  "rejectParameter named_ctx 600 = Inr (Some (602, 605)) \<and>
   getDeclaredVariables named_ctx 602 =
     [function_name_variable, resolve_parameter_variable, reject_parameter_variable] \<and>
   identifiers reject_parameter_variable = [605] \<and>
   identifiers function_name_variable = [603] \<and>
   find (\<lambda>variable. Some (vname variable) = name (node_at named_ctx 605))
     (getDeclaredVariables named_ctx 602) = Some function_name_variable \<and>
   references reject_parameter_variable = [\<lparr> isRead = True, ref_identifier = 611 \<rparr>] \<and>
   isInvocation named_ctx \<lparr> isRead = True, ref_identifier = 611 \<rparr> \<and>
   parent named_ctx 611 = Some 610 \<and>
   violates named_ctx 610 \<and>
   declaresParameters named_ctx 602 \<and>
   linkedReferences named_ctx 602 \<and>
   calleeReferences named_ctx 602 605 = Inr [] \<and>
   callbackSites named_ctx 600 = Inr [] \<and>
   NewExpression_exit named_ctx 600 [] = Inr [] \<and>
   traverse named_ctx [(Enter, 600), (Enter, 610), (Exit, 610), (Exit, 600)] [] = Inr []"
proof -
  have r: "rejectParameter named_ctx 600 = Inr (Some (602, 605))"
    by (simp add: rejectParameter_def isFunction_def named_facts)
  have v: "getDeclaredVariables named_ctx 602 =
     [function_name_variable, resolve_parameter_variable, reject_parameter_variable]"
    by (simp add: named_facts)
  have f: "find (\<lambda>variable. Some (vname variable) = name (node_at named_ctx 605))
     (getDeclaredVariables named_ctx 602) = Some function_name_variable"
    by (simp add: named_facts function_name_variable_def)
  have c: "calleeReferences named_ctx 602 605 = Inr []"
    by (simp add: calleeReferences_def f function_name_variable_def)
  have s: "callbackSites named_ctx 600 = Inr []"
    by (simp add: callbackSites_def r c)
  have e: "NewExpression_exit named_ctx 600 [] = Inr []"
    by (simp add: NewExpression_exit_sites s)
  have i: "isInvocation named_ctx \<lparr> isRead = True, ref_identifier = 611 \<rparr>"
    by (simp add: isInvocation_def named_facts)
  have w: "violates named_ctx 610"
    by (simp add: violates_def checkRejectCall_def report_def named_facts)
  have d: "declaresParameters named_ctx 602" "linkedReferences named_ctx 602"
    by (simp_all add: declaresParameters_def linkedReferences_def named_facts
        function_name_variable_def resolve_parameter_variable_def
        reject_parameter_variable_def)
  have t: "traverse named_ctx [(Enter, 600), (Enter, 610), (Exit, 610), (Exit, 600)] [] =
      Inr []"
    by (simp add: visit_cases e CallExpression_listener_def isPromiseRejectCall_def
        isSpecificMemberAccess_def named_facts)
  show ?thesis
    using r v f c s e i w d t
    by (simp add: named_facts function_name_variable_def reject_parameter_variable_def)
qed

text \<open>
  C10. Only a \<^verbatim>\<open>new\<close> expression whose callee is the identifier
  \<^verbatim>\<open>Promise\<close> starts the locator. A \<^verbatim>\<open>new\<close> expression with any other
  callee, such as \<^verbatim>\<open>new window.Promise(callback)\<close>, yields no site and no
  diagnostic. A plain call yields nothing when it is left, and when it is entered the
  only diagnostic it can yield is on the call itself, never on a call inside a
  callback; a plain call whose callee is an identifier, such as
  \<^verbatim>\<open>Promise(callback)\<close>, yields no site and no diagnostic at all.
\<close>

theorem locator_needs_new_Promise:
  "(node_at ctx n = NewExpression c as \<and> node_at ctx c \<noteq> Identifier ''Promise'' \<longrightarrow>
      callbackSites ctx n = Inr [] \<and>
      NewExpression_exit ctx n reports = Inr reports \<and>
      visit ctx (ph, n) reports = Inr reports) \<and>
   (node_at ctx n = CallExpression c as \<longrightarrow>
      visit ctx (Exit, n) reports = Inr reports \<and>
      (\<exists>new. visit ctx (Enter, n) reports = Inr (reports @ new) \<and>
             set new \<subseteq> {(n, ''rejectAnError'')})) \<and>
   (node_at ctx n = CallExpression c as \<and> node_at ctx c = Identifier s \<longrightarrow>
      candidateSites ctx (ph, n) = Inr [] \<and>
      visit ctx (ph, n) reports = Inr reports)"
proof (intro conjI impI)
  assume a: "node_at ctx n = NewExpression c as \<and> node_at ctx c \<noteq> Identifier ''Promise''"
  then have "rejectParameter ctx n = Inr None"
    using identifier_named [of "node_at ctx c" "''Promise''"]
    by (simp add: rejectParameter_def)
  then show sites: "callbackSites ctx n = Inr []"
    and exit: "NewExpression_exit ctx n reports = Inr reports"
    by (simp_all add: callbackSites_def NewExpression_exit_def)
  from a exit show "visit ctx (ph, n) reports = Inr reports"
    by (cases ph) (simp_all add: visit_cases)
next
  assume a: "node_at ctx n = CallExpression c as"
  then show "visit ctx (Exit, n) reports = Inr reports"
    by (simp add: visit_cases)
  from a show "\<exists>new. visit ctx (Enter, n) reports = Inr (reports @ new) \<and>
             set new \<subseteq> {(n, ''rejectAnError'')}"
    by (auto simp: visit_cases CallExpression_listener_sites directSites_def)
next
  assume a: "node_at ctx n = CallExpression c as \<and> node_at ctx c = Identifier s"
  then have no: "\<not> isPromiseRejectCall ctx n"
    by (simp add: isPromiseRejectCall_def isSpecificMemberAccess_def)
  from a no show "candidateSites ctx (ph, n) = Inr []"
    by (cases ph) (simp_all add: candidateSites_cases directSites_def)
  from a no show "visit ctx (ph, n) reports = Inr reports"
    by (cases ph) (simp_all add: visit_cases CallExpression_listener_def)
qed

theorem locator_needs_new_Promise_witness:
  "node_at (callback_ctx False) 300 = NewExpression 301 [302] \<and>
   node_at (callback_ctx False) 301 \<noteq> Identifier ''Promise'' \<and>
   callbackSites (callback_ctx False) 300 = Inr [] \<and>
   NewExpression_exit (callback_ctx False) 300 [] = Inr [] \<and>
   visit (callback_ctx False) (Exit, 300) [] = Inr [] \<and>
   node_at (callback_ctx False) 400 = CallExpression 401 [402] \<and>
   node_at (callback_ctx False) 401 = Identifier ''Promise'' \<and>
   candidateSites (callback_ctx False) (Exit, 400) = Inr [] \<and>
   visit (callback_ctx False) (Exit, 400) [] = Inr [] \<and>
   visit (callback_ctx False) (Enter, 400) [] = Inr []"
  using
    locator_needs_new_Promise [where ctx = "callback_ctx False" and n = 300 and c = 301
      and as = "[302]" and reports = "[]" and ph = Exit]
    locator_needs_new_Promise [where ctx = "callback_ctx False" and n = 400 and c = 401
      and as = "[402]" and reports = "[]" and ph = Exit and s = "''Promise''"]
    locator_needs_new_Promise [where ctx = "callback_ctx False" and n = 400 and c = 401
      and as = "[402]" and reports = "[]" and ph = Enter and s = "''Promise''"]
  by (simp add: callback_facts)

section \<open>The whole run\<close>



text \<open>
  C8. A run is repeatable: what it adds to the diagnostics does not depend on the
  diagnostics already present, and the tree and the option are only read. A second run
  over the same visits, started on the diagnostics the first one left, therefore adds
  the same diagnostics in the same order.
\<close>

theorem traverse_is_repeatable:
  "traverse ctx evs reports =
     (case traverse ctx evs [] of Inl e \<Rightarrow> Inl e | Inr rs \<Rightarrow> Inr (reports @ rs)) \<and>
   (traverse ctx evs [] = Inr rs \<longrightarrow> traverse ctx evs rs = Inr (rs @ rs))"
  using traverse_append_reports [of ctx evs reports] traverse_append_reports [of ctx evs rs]
  by simp

theorem traverse_is_repeatable_witness:
  "traverse (callback_ctx False) sample_run [] =
     Inr [(110, ''rejectAnError''), (155, ''rejectAnError'')] \<and>
   traverse (callback_ctx False) sample_run
       [(110, ''rejectAnError''), (155, ''rejectAnError'')] =
     Inr [(110, ''rejectAnError''), (155, ''rejectAnError''),
          (110, ''rejectAnError''), (155, ''rejectAnError'')]"
proof -
  have t: "traverse (callback_ctx False) sample_run [] =
     Inr [(110, ''rejectAnError''), (155, ''rejectAnError'')]"
    by (simp add: traverse_sites sample_allSites callback_violates)
  from traverse_is_repeatable
    [of "callback_ctx False" sample_run "[]" "[(110, ''rejectAnError''), (155, ''rejectAnError'')]"] t
  show ?thesis by simp
qed

text \<open>
  C9. When the scope manager declares a variable for each plain identifier parameter of
  the callback of every \<^verbatim>\<open>new\<close> expression visited, the lookup by name of the
  second parameter's variable finds one, so the read of \<^verbatim>\<open>.references\<close> never
  throws. When moreover the identifier of each reference of these variables has its
  parent pointer set, as it has once the \<^verbatim>\<open>new\<close> expression is left, the run
  throws nothing at all and ends with a list of diagnostics.
\<close>

theorem no_runtime_exception:
  assumes "\<forall>ev\<in>set evs. \<forall>fn\<in>set (callbackOf ctx (snd ev)). declaresParameters ctx fn"
  shows "traverse ctx evs reports \<noteq> Inl (TypeError ''references'') \<and>
         ((\<forall>ev\<in>set evs. \<forall>fn\<in>set (callbackOf ctx (snd ev)). linkedReferences ctx fn) \<longrightarrow>
            (\<exists>rs. traverse ctx evs reports = Inr rs))"
  using allSites_safe [OF assms]
  by (auto simp: traverse_sites split: sum.splits)

theorem no_runtime_exception_witness:
  "list_all (\<lambda>ev. list_all (declaresParameters (callback_ctx False))
               (callbackOf (callback_ctx False) (snd ev))) sample_run \<and>
   list_all (\<lambda>ev. list_all (linkedReferences (callback_ctx False))
               (callbackOf (callback_ctx False) (snd ev))) sample_run \<and>
   traverse (callback_ctx False) sample_run [] \<noteq> Inl (TypeError ''references'') \<and>
   (\<exists>rs. traverse (callback_ctx False) sample_run [] = Inr rs)"
proof -
  have d: "list_all (\<lambda>ev. list_all (declaresParameters (callback_ctx False))
               (callbackOf (callback_ctx False) (snd ev))) sample_run"
    by (simp add: sample_run_def callback_callbackOf callback_declares)
  have l: "list_all (\<lambda>ev. list_all (linkedReferences (callback_ctx False))
               (callbackOf (callback_ctx False) (snd ev))) sample_run"
    by (simp add: sample_run_def callback_callbackOf callback_declares)
  have d': "\<forall>ev\<in>set sample_run. \<forall>fn\<in>set (callbackOf (callback_ctx False) (snd ev)).
      declaresParameters (callback_ctx False) fn"
    using d by (simp add: list_all_iff)
  have l': "\<forall>ev\<in>set sample_run. \<forall>fn\<in>set (callbackOf (callback_ctx False) (snd ev)).
      linkedReferences (callback_ctx False) fn"
    using l by (simp add: list_all_iff)
  from no_runtime_exception [OF d', of "[]"] l' d l
  show ?thesis by blast
qed

end
